theory Spec2Isabelle
  imports Complex_Main "HOL-Library.Sublist" "HOL-Library.Multiset" "HOL-Library.Product_Lexorder"
begin

section \<open>Python strings\<close>

text \<open>
  A Python \<open>str\<close> is modelled as a \<open>string\<close> (a list of characters), and the text is
  taken to be ASCII: \<open>len\<close> is \<open>length\<close>, \<open>str.lower\<close> maps \<open>A\<close>..\<open>Z\<close> to \<open>a\<close>..\<open>z\<close>,
  and the whitespace of \<open>str.split()\<close> and of the regular expression class \<open>\s\<close> is the
  ASCII whitespace. A Python \<open>float\<close> is modelled by an exact rational number.
\<close>

definition is_space :: "char \<Rightarrow> bool" where
  "is_space c = (let n = of_char c :: nat in (9 \<le> n \<and> n \<le> 13) \<or> (28 \<le> n \<and> n \<le> 32))"

definition lower_char :: "char \<Rightarrow> char" where
  "lower_char c =
     (let n = of_char c :: nat in if 65 \<le> n \<and> n \<le> 90 then char_of (n + 32) else c)"

definition lower :: "string \<Rightarrow> string" where
  "lower s = map lower_char s"

text \<open>\<open>s.split()\<close>: the maximal runs of non-whitespace characters, in order.\<close>

function split :: "string \<Rightarrow> string list" where
  "split [] = []"
| "split (c # cs) =
     (if is_space c then split cs
      else (c # takeWhile (\<lambda>x. \<not> is_space x) cs) # split (dropWhile (\<lambda>x. \<not> is_space x) cs))"
  by pat_completeness auto
termination
  by (relation "measure length") (auto simp: less_Suc_eq_le length_dropWhile_le)

text \<open>\<open>' '.join(ws)\<close>.\<close>

fun join :: "string list \<Rightarrow> string" where
  "join [] = []"
| "join [w] = w"
| "join (w # v # ws) = w @ CHR '' '' # join (v # ws)"

section \<open>Data model (models/schemas.py)\<close>

datatype EvidenceQuality = STRONG | MODERATE | WEAK | NONE

datatype SeverityLevel = HIGH | MEDIUM | LOW

datatype BiasType =
  SOURCE_BIAS | STATISTICAL_MISUSE | LOGICAL_FALLACY | SELECTION_BIAS | FRAMING_BIAS
  | EMOTIONAL_MANIPULATION

record Claim =
  claim :: string
  evidence_quality :: EvidenceQuality
  verifiable :: bool
  claim_context :: "string option"
  confidence :: rat

record RedFlag =
  type :: BiasType
  description :: string
  severity :: SeverityLevel
  evidence :: "string option"
  confidence :: rat

section \<open>Reconciliation (core/orchestrator.py)\<close>

text \<open>
  \<open>sorted(xs, key=k, reverse=True)\<close>: Python's sort is stable, and with \<open>reverse=True\<close>
  elements with equal keys still keep their original order; it is the reversal of the
  stable ascending sort of the reversed list.
\<close>

definition sorted_reverse :: "('a \<Rightarrow> 'k::linorder) \<Rightarrow> 'a list \<Rightarrow> 'a list" where
  "sorted_reverse k xs = rev (sort_key k (rev xs))"

text \<open>\<open>AnalysisOrchestrator._claims_similar\<close> (Jaccard similarity above 60%).\<close>

definition claims_similar :: "string \<Rightarrow> string \<Rightarrow> bool" where
  "claims_similar claim1 claim2 =
     (let words1 = set (split claim1);
          words2 = set (split claim2);
          intersection = card (words1 \<inter> words2);
          union = card (words1 \<union> words2);
          similarity = (if union > 0 then of_nat intersection / of_nat union else 0 :: rat)
      in similarity > 6 / 10)"

text \<open>
  The loop body of \<open>_merge_claims\<close>: the state is the pair of \<open>unique_claims\<close> (a list)
  and \<open>seen_claims\<close> (a set of normalised strings).
\<close>

definition merge_claims_step :: "Claim list \<times> string set \<Rightarrow> Claim \<Rightarrow> Claim list \<times> string set" where
  "merge_claims_step st c =
     (let unique_claims = fst st;
          seen_claims = snd st;
          simplified = join (split (lower (claim c)));
          is_duplicate = (\<exists>seen \<in> seen_claims. claims_similar simplified seen)
      in if \<not> is_duplicate then (unique_claims @ [c], insert simplified seen_claims)
         else (unique_claims, seen_claims))"

definition merge_claims :: "Claim list \<Rightarrow> Claim list \<Rightarrow> Claim list" where
  "merge_claims traditional_claims ai_claims =
     (let all_claims = traditional_claims @ ai_claims;
          unique_claims = fst (foldl merge_claims_step ([], {}) all_claims)
      in take 8 (sorted_reverse Claim.confidence unique_claims))"

text \<open>
  The words of the claim merge, for comparison with the code: the normalised word-set of
  a claim text, the Jaccard similarity of two sets, and "keep a claim unless it is
  similar to an already kept one", iterating in order.
\<close>

definition word_set :: "string \<Rightarrow> string set" where
  "word_set s = set (split (lower s))"

definition jaccard :: "'a set \<Rightarrow> 'a set \<Rightarrow> rat" where
  "jaccard A B = (if A \<union> B = {} then 0 else of_nat (card (A \<inter> B)) / of_nat (card (A \<union> B)))"

fun first_seen :: "rat \<Rightarrow> Claim list \<Rightarrow> Claim list \<Rightarrow> Claim list" where
  "first_seen t kept [] = kept"
| "first_seen t kept (c # cs) =
     (if \<exists>k \<in> set kept. jaccard (word_set (claim c)) (word_set (claim k)) > t
      then first_seen t kept cs
      else first_seen t (kept @ [c]) cs)"

text \<open>\<open>AnalysisOrchestrator._merge_red_flags\<close>. The enumeration \<open>SeverityLevel\<close> has exactly the
  three values of the dictionary \<open>severity_order\<close>, so the default \<open>0\<close> of
  \<open>severity_order.get\<close> is never taken. The sort key is the pair (severity rank,
  confidence), compared lexicographically as Python compares tuples.\<close>

definition severity_order :: "SeverityLevel \<Rightarrow> int" where
  "severity_order s = (case s of HIGH \<Rightarrow> 3 | MEDIUM \<Rightarrow> 2 | LOW \<Rightarrow> 1)"

definition merge_red_flags_step ::
  "RedFlag list \<times> string set \<Rightarrow> RedFlag \<Rightarrow> RedFlag list \<times> string set" where
  "merge_red_flags_step st flag =
     (let unique_flags = fst st;
          seen_descriptions = snd st;
          simplified_desc = join (split (lower (description flag)))
      in if simplified_desc \<notin> seen_descriptions
         then (unique_flags @ [flag], insert simplified_desc seen_descriptions)
         else (unique_flags, seen_descriptions))"

definition flag_key :: "RedFlag \<Rightarrow> int \<times> rat" where
  "flag_key x = (severity_order (severity x), RedFlag.confidence x)"

definition merge_red_flags :: "RedFlag list \<Rightarrow> RedFlag list \<Rightarrow> RedFlag list" where
  "merge_red_flags traditional_flags ai_flags =
     (let all_flags = traditional_flags @ ai_flags;
          unique_flags = fst (foldl merge_red_flags_step ([], {}) all_flags)
      in take 10 (sorted_reverse flag_key unique_flags))"



section \<open>Intra-source claim deduplication (analysis/claim_extractor.py)\<close>

text \<open>The character classes \<open>\w\<close> and \<open>\s\<close> of \<open>re\<close>, on ASCII text.\<close>

definition is_word_char :: "char \<Rightarrow> bool" where
  "is_word_char c =
     (let n = of_char c :: nat
      in (48 \<le> n \<and> n \<le> 57) \<or> (65 \<le> n \<and> n \<le> 90) \<or> (97 \<le> n \<and> n \<le> 122) \<or> n = 95)"

text \<open>\<open>re.sub(r'[^\w\s]', '', s)\<close>: every character that is neither a word character nor
  whitespace is deleted.\<close>

definition strip_punctuation :: "string \<Rightarrow> string" where
  "strip_punctuation s = filter (\<lambda>c. is_word_char c \<or> is_space c) s"

text \<open>\<open>ClaimExtractor._claims_similar\<close> (Jaccard similarity above 70%).\<close>

definition extractor_claims_similar :: "string \<Rightarrow> string \<Rightarrow> bool" where
  "extractor_claims_similar claim1 claim2 =
     (let words1 = set (split claim1);
          words2 = set (split claim2);
          intersection = card (words1 \<inter> words2);
          union = card (words1 \<union> words2);
          similarity = (if union > 0 then of_nat intersection / of_nat union else 0 :: rat)
      in similarity > 7 / 10)"

text \<open>\<open>ClaimExtractor._deduplicate_claims\<close>.\<close>

definition deduplicate_claims_step ::
  "Claim list \<times> string set \<Rightarrow> Claim \<Rightarrow> Claim list \<times> string set" where
  "deduplicate_claims_step st c =
     (let unique_claims = fst st;
          seen_claims = snd st;
          simplified = join (split (strip_punctuation (lower (claim c))));
          is_duplicate = (\<exists>seen \<in> seen_claims. extractor_claims_similar simplified seen)
      in if \<not> is_duplicate then (unique_claims @ [c], insert simplified seen_claims)
         else (unique_claims, seen_claims))"

definition deduplicate_claims :: "Claim list \<Rightarrow> Claim list" where
  "deduplicate_claims claims = fst (foldl deduplicate_claims_step ([], {}) claims)"

text \<open>The normalised word-set that the deduplication compares.\<close>

definition dedup_word_set :: "Claim \<Rightarrow> string set" where
  "dedup_word_set c = set (split (strip_punctuation (lower (claim c))))"

text \<open>Test data: a claim with a given text and confidence, and nine one-word claims.\<close>

definition mk_claim :: "string \<Rightarrow> rat \<Rightarrow> Claim" where
  "mk_claim s q = \<lparr>claim = s, evidence_quality = NONE, verifiable = False,
     claim_context = None, Claim.confidence = q\<rparr>"

text \<open>No claim of the list is similar (Jaccard above 0.6) to an earlier one.\<close>

definition pairwise_dissimilar :: "Claim list \<Rightarrow> bool" where
  "pairwise_dissimilar L =
     sorted_wrt (\<lambda>k c. \<not> jaccard (word_set (claim c)) (word_set (claim k)) > 6 / 10) L"

definition nine_claims :: "Claim list" where
  "nine_claims = map (\<lambda>s. mk_claim s (1 / 2))
     [''a'', ''b'', ''c'', ''d'', ''e'', ''f'', ''g'', ''h'', ''i'']"

text \<open>Test data: a red flag with a given description, severity and confidence, and fifteen
  high-severity flags with pairwise different descriptions.\<close>

definition mk_flag :: "string \<Rightarrow> SeverityLevel \<Rightarrow> rat \<Rightarrow> RedFlag" where
  "mk_flag d s q = \<lparr>type = SOURCE_BIAS, description = d, severity = s, evidence = None,
     RedFlag.confidence = q\<rparr>"


text \<open>Test data: a claim of nine words, and claims sharing 7, 6 and 8 words with it, each
  with one word of its own (a union of 10 words).\<close>

definition claim_nine_words :: Claim where
  "claim_nine_words = mk_claim ''A, b c d e f g h i.'' (1 / 2)"

definition claim_seven_shared :: Claim where
  "claim_seven_shared = mk_claim ''a b c d e f g k'' (1 / 2)"

definition claim_six_shared :: Claim where
  "claim_six_shared = mk_claim ''a b c d e f k'' (1 / 2)"

definition claim_eight_shared :: Claim where
  "claim_eight_shared = mk_claim ''a b c d e f g h k'' (1 / 2)"

section \<open>Content validation (utils/validators.py)\<close>

text \<open>
  Python exceptions as values: the class and the message. Only subclasses of
  \<open>Exception\<close> are modelled (not \<open>KeyboardInterrupt\<close>, \<open>SystemExit\<close> or task cancellation,
  which no \<open>except Exception\<close> clause handles). \<open>str(e)\<close> is the message.
\<close>

datatype exn = ValueError string | Exception string

fun str_exn :: "exn \<Rightarrow> string" where
  "str_exn (ValueError m) = m"
| "str_exn (Exception m) = m"

text \<open>
  The libraries behind the validator are parameters of the model: \<open>validators.url\<close> (its
  result is \<open>True\<close>, or a falsy failure object, or it raises), \<open>urlparse(url).netloc\<close>
  (\<open>urlparse\<close> may raise \<open>ValueError\<close>) and \<open>langdetect.detect\<close> (\<open>None\<close> stands for its
  \<open>LangDetectException\<close>).
\<close>

record external =
  validators_url :: "string \<Rightarrow> exn + bool"
  urlparse_netloc :: "string \<Rightarrow> exn + string"
  langdetect_detect :: "string \<Rightarrow> string option"

abbreviation nl :: char where
  "nl \<equiv> CHR 0x0A"

text \<open>
  \<open>s.count(sub)\<close>: the number of non-overlapping occurrences of \<open>sub\<close> in \<open>s\<close>, found from
  left to right (for the empty \<open>sub\<close>, \<open>len(s) + 1\<close>).
\<close>

function count_sub :: "string \<Rightarrow> string \<Rightarrow> nat" where
  "count_sub [] sub = (if sub = [] then 1 else 0)"
| "count_sub (c # cs) sub =
     (if sub = [] then Suc (count_sub cs sub)
      else if prefix sub (c # cs) then Suc (count_sub (drop (length sub) (c # cs)) sub)
      else count_sub cs sub)"
  by pat_completeness auto
termination
  by (relation "measure (\<lambda>(s, sub). length s)") auto

text \<open>
  \<open>s.replace(old, new)\<close>: every non-overlapping occurrence of \<open>old\<close>, found from left to
  right, is replaced by \<open>new\<close>.
\<close>

function replace :: "string \<Rightarrow> string \<Rightarrow> string \<Rightarrow> string" where
  "replace [] old new = (if old = [] then new else [])"
| "replace (c # cs) old new =
     (if old = [] then new @ c # replace cs old new
      else if prefix old (c # cs) then new @ replace (drop (length old) (c # cs)) old new
      else c # replace cs old new)"
  by pat_completeness auto
termination
  by (relation "measure (\<lambda>(s, old, new). length s)") auto

definition MIN_CONTENT_LENGTH :: nat where
  "MIN_CONTENT_LENGTH = 500"

definition MAX_CONTENT_LENGTH :: nat where
  "MAX_CONTENT_LENGTH = 100000"

definition MIN_PARAGRAPHS :: nat where
  "MIN_PARAGRAPHS = 3"

definition validate_url :: "external \<Rightarrow> string \<Rightarrow> bool" where
  "validate_url ext url = (case validators_url ext url of Inl e \<Rightarrow> False | Inr b \<Rightarrow> b)"

text \<open>The average sentence length computed inside \<open>calculate_content_quality\<close>.\<close>

definition avg_sentence_length :: "string \<Rightarrow> rat" where
  "avg_sentence_length content =
     (let sentences = count_sub content ''.'' + count_sub content ''!'' + count_sub content ''?''
      in of_nat (length content) / of_nat (max sentences 1))"

definition calculate_content_quality :: "external \<Rightarrow> string \<Rightarrow> string option \<Rightarrow> rat" where
  "calculate_content_quality ext content title =
     (if content = [] then 0
      else
        let score0 = 0;
            len = length content;
            score1 = (if len \<ge> MIN_CONTENT_LENGTH
                      then score0 + min (3 / 10) (of_nat len / 10000 * (3 / 10)) else score0);
            paragraphs = count_sub content [nl, nl] + count_sub content [nl, CHR '' '', nl];
            score2 = (if paragraphs \<ge> MIN_PARAGRAPHS
                      then score1 + min (3 / 10) (of_nat paragraphs / 10 * (3 / 10)) else score1);
            score3 = (if 10 \<le> avg_sentence_length content \<and> avg_sentence_length content \<le> 100
                      then score2 + 2 / 10 else score2);
            score4 = (case title of
                        None \<Rightarrow> score3
                      | Some t \<Rightarrow> if t \<noteq> [] \<and> length t > 10 then score3 + 1 / 10 else score3);
            score5 = (if langdetect_detect ext content = Some ''en'' then score4 + 1 / 10
                      else score4)
        in min 1 score5)"

definition detect_language :: "external \<Rightarrow> string \<Rightarrow> string option" where
  "detect_language ext content = langdetect_detect ext content"

definition extract_domain :: "external \<Rightarrow> string \<Rightarrow> string" where
  "extract_domain ext url =
     (case urlparse_netloc ext url of
        Inl e \<Rightarrow> []
      | Inr netloc \<Rightarrow> replace (lower netloc) ''www.'' [])"

definition non_article_indicators :: "string list" where
  "non_article_indicators =
     [''404 not found'', ''page not found'', ''access denied'', ''login required'',
      ''subscribe to continue'', ''paywall'', ''premium content'']"

definition is_article_content :: "string \<Rightarrow> bool" where
  "is_article_content content =
     (if content = [] \<or> length content < MIN_CONTENT_LENGTH then False
      else
        let has_paragraphs = (count_sub content [nl, nl] \<ge> MIN_PARAGRAPHS);
            has_sentences = (count_sub content ''.'' \<ge> 5);
            content_lower = lower content;
            has_non_article =
              list_ex (\<lambda>indicator. sublist indicator content_lower) non_article_indicators
        in has_paragraphs \<and> has_sentences \<and> \<not> has_non_article)"

text \<open>The reason returned by \<open>validate_extraction_result\<close> (a message in the source).\<close>

datatype reason =
  No_content_extracted
  | Content_does_not_appear_to_be_an_article
  | Content_quality_too_low rat
  | Valid_article_content_extracted_via string

definition validate_extraction_result ::
  "external \<Rightarrow> string \<Rightarrow> string \<Rightarrow> string \<Rightarrow> bool \<times> reason \<times> rat" where
  "validate_extraction_result ext content url method =
     (if content = [] then (False, No_content_extracted, 0)
      else if \<not> is_article_content content
      then (False, Content_does_not_appear_to_be_an_article, 0)
      else
        let quality_score = calculate_content_quality ext content None
        in if quality_score < 3 / 10
           then (False, Content_quality_too_low quality_score, quality_score)
           else (True, Valid_article_content_extracted_via method, quality_score))"

text \<open>
  \<open>clean_content\<close>. \<open>re.sub(r'\s+', ' ', s)\<close> turns every maximal run of whitespace into
  one space; \<open>re.sub(artifact, '', s, flags=re.IGNORECASE)\<close> deletes the occurrences of a
  literal phrase, compared without case, from left to right; \<open>re.sub(r'\n\s*\n', '\n\n', s)\<close>
  replaces a newline, the whitespace after it up to the last newline of that whitespace
  run, by two newlines; \<open>strip()\<close> removes leading and trailing whitespace.
\<close>

function collapse_whitespace :: "string \<Rightarrow> string" where
  "collapse_whitespace [] = []"
| "collapse_whitespace (c # cs) =
     (if is_space c then CHR '' '' # collapse_whitespace (dropWhile is_space cs)
      else c # collapse_whitespace cs)"
  by pat_completeness auto
termination
  by (relation "measure length") (auto simp: less_Suc_eq_le length_dropWhile_le)

function remove_ignorecase :: "string \<Rightarrow> string \<Rightarrow> string" where
  "remove_ignorecase artifact [] = []"
| "remove_ignorecase artifact (c # cs) =
     (if artifact \<noteq> [] \<and> prefix (lower artifact) (lower (c # cs))
      then remove_ignorecase artifact (drop (length artifact) (c # cs))
      else c # remove_ignorecase artifact cs)"
  by pat_completeness auto
termination
  by (relation "measure (\<lambda>(a, s). length s)") auto

function normalize_blank_lines :: "string \<Rightarrow> string" where
  "normalize_blank_lines [] = []"
| "normalize_blank_lines (c # cs) =
     (let run = takeWhile is_space cs; rest = dropWhile is_space cs
      in if c = nl \<and> nl \<in> set run
         then nl # nl # normalize_blank_lines (rev (takeWhile (\<lambda>x. x \<noteq> nl) (rev run)) @ rest)
         else c # normalize_blank_lines cs)"
  by pat_completeness auto
termination
proof (relation "measure length")
  show "wf (measure length)" by simp
next
  fix c :: char and cs run rest :: string
  assume r: "run = takeWhile is_space cs" "rest = dropWhile is_space cs"
  have "length (rev (takeWhile (\<lambda>x. x \<noteq> nl) (rev run))) \<le> length run"
    using length_takeWhile_le [of "\<lambda>x. x \<noteq> nl" "rev run"] by simp
  moreover have "length run + length rest = length cs"
    using r takeWhile_dropWhile_id [of is_space cs] by (metis length_append)
  ultimately show "(rev (takeWhile (\<lambda>x. x \<noteq> nl) (rev run)) @ rest, c # cs) \<in> measure length"
    by simp
next
  fix c :: char and cs run rest :: string
  show "(cs, c # cs) \<in> measure length" by simp
qed

definition strip :: "string \<Rightarrow> string" where
  "strip s = rev (dropWhile is_space (rev (dropWhile is_space s)))"

definition artifacts :: "string list" where
  "artifacts =
     [''Cookie Policy'', ''Privacy Policy'', ''Terms of Service'', ''Subscribe to newsletter'',
      ''Follow us on'', ''Share this article'', ''Advertisement'', ''[Advertisement]'']"

definition clean_content :: "string \<Rightarrow> string" where
  "clean_content content =
     (if content = [] then []
      else
        let content1 = collapse_whitespace content;
            content2 = foldl (\<lambda>s artifact. remove_ignorecase artifact s) content1 artifacts;
            content3 = normalize_blank_lines content2
        in strip content3)"

text \<open>Test data: two texts of 500 characters with six newlines at the end, one with five
  exclamation marks and one with five full stops.\<close>

definition exclaiming_text :: string where
  "exclaiming_text = replicate 489 CHR ''a'' @ ''!!!!!'' @ replicate 6 nl"

definition article_text :: string where
  "article_text = replicate 489 CHR ''a'' @ ''.....'' @ replicate 6 nl"

text \<open>
  Test data. A stand-in for \<open>urlparse(url).netloc\<close> on URLs of the form
  \<open>scheme://netloc/path\<close> (the text after the first \<open>//\<close>, up to the first of \<open>/\<close>, \<open>?\<close>
  and \<open>#\<close>), libraries built on it, libraries that always fail, and the reading "only a
  leading \<open>www.\<close> is stripped" of the domain.
\<close>

fun after_slashes :: "string \<Rightarrow> string option" where
  "after_slashes (a # b # cs) =
     (if a = CHR ''/'' \<and> b = CHR ''/'' then Some cs else after_slashes (b # cs))"
| "after_slashes cs = None"

definition simple_netloc :: "string \<Rightarrow> exn + string" where
  "simple_netloc url =
     (case after_slashes url of
        None \<Rightarrow> Inr []
      | Some r \<Rightarrow> Inr (takeWhile (\<lambda>c. c \<noteq> CHR ''/'' \<and> c \<noteq> CHR ''?'' \<and> c \<noteq> CHR ''#'') r))"




text \<open>Test data: a text of 100 characters that is one sentence, a language detector that
  always answers English, and one that never detects a language.\<close>

definition one_sentence :: string where
  "one_sentence = replicate 99 CHR ''a'' @ ''.''"

definition english :: external where
  "english = \<lparr>validators_url = (\<lambda>url. Inr True), urlparse_netloc = simple_netloc,
     langdetect_detect = (\<lambda>content. Some ''en'')\<rparr>"

definition undetected :: external where
  "undetected = \<lparr>validators_url = (\<lambda>url. Inr True), urlparse_netloc = simple_netloc,
     langdetect_detect = (\<lambda>content. None)\<rparr>"

section \<open>Content extraction (extraction/content_extractor.py)\<close>

text \<open>
  What the \<open>newspaper3k\<close> strategy stores in \<open>self._last_newspaper_article\<close>: the title,
  the authors and the publication date (as its ISO text) of the parsed article.
\<close>

record NewspaperArticle =
  title :: string
  authors :: "string list"
  publish_date :: "string option"

record ArticleContent =
  url :: string
  title :: "string option"
  content :: string
  author :: "string option"
  publish_date :: "string option"
  domain :: string
  language :: "string option"
  quality_score :: rat
  extraction_method :: string

text \<open>
  The mutable state of the extractor object: the attribute \<open>_last_newspaper_article\<close>,
  absent (\<open>None\<close>) until the \<open>newspaper3k\<close> strategy has stored an article.
\<close>

record extractor_state =
  last_newspaper_article :: "NewspaperArticle option"

text \<open>
  An extraction strategy is a black box: called with the URL in some state of the
  extractor, it raises an exception, or returns \<open>None\<close> or a text, and leaves a new state.
\<close>

type_synonym strategy =
  "string \<Rightarrow> extractor_state \<Rightarrow> (exn + string option) \<times> extractor_state"

text \<open>\<open>sep.join(ws)\<close>.\<close>

fun join_sep :: "string \<Rightarrow> string list \<Rightarrow> string" where
  "join_sep sep [] = []"
| "join_sep sep [w] = w"
| "join_sep sep (w # v # ws) = w @ sep @ join_sep sep (v # ws)"

definition extract_title :: "extractor_state \<Rightarrow> string \<Rightarrow> string \<Rightarrow> string option" where
  "extract_title st url' method =
     (case last_newspaper_article st of
        Some a \<Rightarrow> if method = ''newspaper3k'' then Some (NewspaperArticle.title a) else None
      | None \<Rightarrow> None)"

definition extract_author :: "extractor_state \<Rightarrow> string \<Rightarrow> string \<Rightarrow> string option" where
  "extract_author st url' method =
     (case last_newspaper_article st of
        Some a \<Rightarrow>
          if method = ''newspaper3k''
          then (if authors a \<noteq> [] then Some (join_sep '', '' (authors a)) else None)
          else None
      | None \<Rightarrow> None)"

definition extract_date :: "extractor_state \<Rightarrow> string \<Rightarrow> string \<Rightarrow> string option" where
  "extract_date st url' method =
     (case last_newspaper_article st of
        Some a \<Rightarrow> if method = ''newspaper3k'' then NewspaperArticle.publish_date a else None
      | None \<Rightarrow> None)"

text \<open>
  The body of the \<open>try\<close> block of \<open>extract_content\<close> for one strategy. \<open>Inl e\<close>: the strategy
  raised \<open>e\<close> (caught, recorded as \<open>last_error\<close>, next strategy); \<open>Inr None\<close>: no content, or
  the validation failed (next strategy); \<open>Inr (Some a)\<close>: the article that is returned.
\<close>

definition attempt ::
  "external \<Rightarrow> string \<Rightarrow> string \<Rightarrow> string \<Rightarrow> strategy \<Rightarrow> extractor_state
     \<Rightarrow> (exn + ArticleContent option) \<times> extractor_state" where
  "attempt ext url' domain' method_name extractor st =
     (case extractor url' st of
        (Inl e, st') \<Rightarrow> (Inl e, st')
      | (Inr None, st') \<Rightarrow> (Inr None, st')
      | (Inr (Some content'), st') \<Rightarrow>
          if content' = [] then (Inr None, st')
          else
            (case validate_extraction_result ext content' url' method_name of
               (is_valid, reason', quality_score') \<Rightarrow>
                 if is_valid
                 then (Inr (Some \<lparr>url = url',
                         ArticleContent.title = extract_title st' url' method_name,
                         content = clean_content content',
                         author = extract_author st' url' method_name,
                         ArticleContent.publish_date = extract_date st' url' method_name,
                         domain = domain',
                         language = detect_language ext content',
                         quality_score = quality_score',
                         extraction_method = method_name\<rparr>), st')
                 else (Inr None, st')))"

text \<open>
  The loop over the strategies. Besides the result and the state it returns the names
  of the strategies that were invoked, in order (a record of the calls, not part of the
  source's result).
\<close>

fun try_extractors ::
  "external \<Rightarrow> string \<Rightarrow> string \<Rightarrow> (string \<times> strategy) list \<Rightarrow> exn option
     \<Rightarrow> extractor_state \<Rightarrow> string list
     \<Rightarrow> (exn + ArticleContent) \<times> extractor_state \<times> string list" where
  "try_extractors ext url' domain' [] last_error st invoked =
     (Inl (Exception (''All extraction methods failed. Last error: ''
             @ (case last_error of None \<Rightarrow> ''None'' | Some e \<Rightarrow> str_exn e))),
      st, invoked)"
| "try_extractors ext url' domain' ((method_name, extractor) # extractors) last_error st invoked =
     (case attempt ext url' domain' method_name extractor st of
        (Inl e, st') \<Rightarrow>
          try_extractors ext url' domain' extractors (Some e) st' (invoked @ [method_name])
      | (Inr None, st') \<Rightarrow>
          try_extractors ext url' domain' extractors last_error st' (invoked @ [method_name])
      | (Inr (Some a), st') \<Rightarrow> (Inr a, st', invoked @ [method_name]))"

text \<open>\<open>extract_content\<close> over an arbitrary ordered list of named strategies.\<close>

definition extract_content_from ::
  "external \<Rightarrow> (string \<times> strategy) list \<Rightarrow> string \<Rightarrow> extractor_state
     \<Rightarrow> (exn + ArticleContent) \<times> extractor_state \<times> string list" where
  "extract_content_from ext extractors url' st =
     (if \<not> validate_url ext url' then (Inl (ValueError (''Invalid URL: '' @ url')), st, [])
      else try_extractors ext url' (extract_domain ext url') extractors None st [])"

text \<open>\<open>ContentExtractor.extract_content\<close>: the five strategies of the source, in its order.\<close>

record strategies =
  extract_with_trafilatura :: strategy
  extract_with_newspaper :: strategy
  extract_with_readability :: strategy
  extract_with_beautifulsoup :: strategy
  extract_with_selenium :: strategy

definition extractors_of :: "strategies \<Rightarrow> (string \<times> strategy) list" where
  "extractors_of s =
     [(''trafilatura'', extract_with_trafilatura s),
      (''newspaper3k'', extract_with_newspaper s),
      (''readability'', extract_with_readability s),
      (''beautifulsoup'', extract_with_beautifulsoup s),
      (''selenium'', extract_with_selenium s)]"

definition extract_content ::
  "external \<Rightarrow> strategies \<Rightarrow> string \<Rightarrow> extractor_state
     \<Rightarrow> (exn + ArticleContent) \<times> extractor_state \<times> string list" where
  "extract_content ext s url' st = extract_content_from ext (extractors_of s) url' st"

text \<open>
  The words of the extraction chain, for a strategy called in a given state: it fails
  (it raises, returns nothing, returns an empty text, or its text fails the validation),
  or it succeeds (its non-empty text passes \<open>validate_extraction_result\<close>).
\<close>

definition strategy_fails :: "external \<Rightarrow> string \<Rightarrow> string \<Rightarrow> strategy \<Rightarrow> extractor_state \<Rightarrow> bool" where
  "strategy_fails ext url' method_name extractor st =
     (case fst (extractor url' st) of
        Inl e \<Rightarrow> True
      | Inr None \<Rightarrow> True
      | Inr (Some content') \<Rightarrow>
          content' = [] \<or> \<not> fst (validate_extraction_result ext content' url' method_name))"

definition strategy_succeeds ::
  "external \<Rightarrow> string \<Rightarrow> string \<Rightarrow> strategy \<Rightarrow> extractor_state \<Rightarrow> bool" where
  "strategy_succeeds ext url' method_name extractor st =
     (case fst (extractor url' st) of
        Inl e \<Rightarrow> False
      | Inr None \<Rightarrow> False
      | Inr (Some content') \<Rightarrow>
          content' \<noteq> [] \<and> fst (validate_extraction_result ext content' url' method_name))"

text \<open>
  The strategies of a list fail one after the other, each called in the state left by the
  previous one: the state after the last of them, or \<open>None\<close> when one does not fail.
\<close>

fun state_after_failures ::
  "external \<Rightarrow> string \<Rightarrow> (string \<times> strategy) list \<Rightarrow> extractor_state \<Rightarrow> extractor_state option" where
  "state_after_failures ext url' [] st = Some st"
| "state_after_failures ext url' ((method_name, extractor) # rest) st =
     (if strategy_fails ext url' method_name extractor st
      then state_after_failures ext url' rest (snd (extractor url' st))
      else None)"

text \<open>Test data: strategies that return nothing, raise, or return a given text; the state of
  a fresh extractor; two failing strategies.\<close>

definition returns_nothing :: strategy where
  "returns_nothing url' st = (Inr None, st)"

definition raises :: strategy where
  "raises url' st = (Inl (Exception ''timed out''), st)"

definition returns_text :: "string \<Rightarrow> strategy" where
  "returns_text t url' st = (Inr (Some t), st)"

definition initial_state :: extractor_state where
  "initial_state = \<lparr>last_newspaper_article = None\<rparr>"

definition failing_strategies :: "(string \<times> strategy) list" where
  "failing_strategies = [(''trafilatura'', returns_nothing), (''newspaper3k'', raises)]"

section \<open>Scraping and the analysis pipeline (core/scraper.py, core/orchestrator.py)\<close>

datatype ToneType = NEUTRAL_TONE | PERSUASIVE | EMOTIONAL | INFLAMMATORY

record Entity =
  entity_text :: string
  label :: string
  confidence :: rat
  entity_context :: "string option"

record LanguageAnalysis =
  tone :: ToneType
  bias_indicators :: "string list"
  loaded_language :: "string list"
  emotional_words :: "string list"
  persuasive_techniques :: "string list"

record SourceMetrics =
  domain_authority :: "rat option"
  bias_rating :: "string option"
  factual_reporting :: "string option"
  funding_transparency :: "string option"

record VerificationQuestion =
  question :: string
  category :: string
  priority :: int
  research_tips :: "string list"

record CounterNarrative =
  opposing_viewpoint :: string
  alternative_explanations :: "string list"
  missing_context :: "string list"
  potential_rebuttals :: "string list"

record AnalysisResult =
  article :: ArticleContent
  core_claims :: "Claim list"
  language_analysis :: LanguageAnalysis
  red_flags :: "RedFlag list"
  verification_questions :: "VerificationQuestion list"
  entities :: "Entity list"
  source_metrics :: "SourceMetrics option"
  counter_narrative :: "CounterNarrative option"
  bias_confidence :: rat
  overall_credibility :: rat

record AnalysisRequest =
  url :: string
  include_counter_narrative :: bool
  include_entity_analysis :: bool
  include_source_check :: bool

record AnalysisResponse =
  success :: bool
  result :: "AnalysisResult option"
  markdown_report :: "string option"
  error :: "string option"
  processing_time :: "rat option"

text \<open>The dictionary returned by \<open>parse_analysis_to_models\<close>, by its keys.\<close>

record ParsedAI =
  parsed_claims :: "Claim list"
  parsed_red_flags :: "RedFlag list"
  parsed_language_analysis :: LanguageAnalysis
  parsed_bias_confidence :: rat
  parsed_overall_credibility :: rat

text \<open>
  The collaborators of the pipeline are parameters: each is called with the arguments the
  source passes and raises or returns a value. \<open>'ai\<close> is the raw answer of the AI provider.
\<close>

record 'ai components =
  extract_article_metadata :: "string \<Rightarrow> exn + (string \<rightharpoonup> string)"
  extract_entities :: "string \<Rightarrow> string option \<Rightarrow> exn + Entity list"
  extract_source_metrics :: "string \<Rightarrow> string \<Rightarrow> exn + SourceMetrics option"
  extract_claims :: "string \<Rightarrow> string option \<Rightarrow> exn + Claim list"
  detect_language_bias :: "string \<Rightarrow> string option \<Rightarrow> exn + LanguageAnalysis"
  detect_structural_bias :: "string \<Rightarrow> exn + RedFlag list"
  analyzer_analyze_article ::
    "string \<Rightarrow> string \<Rightarrow> string option \<Rightarrow> string option \<Rightarrow> string \<Rightarrow> string option \<Rightarrow> exn + 'ai"
  parse_analysis_to_models :: "'ai \<Rightarrow> exn + ParsedAI"
  generate_verification_questions ::
    "Claim list \<Rightarrow> Entity list \<Rightarrow> string \<Rightarrow> string \<Rightarrow> exn + VerificationQuestion list"
  generate_counter_narrative :: "AnalysisResult \<Rightarrow> exn + CounterNarrative option"
  format_analysis_report :: "AnalysisResult \<Rightarrow> exn + string"

text \<open>Sequencing of statements that may raise, and \<open>try: ... except Exception as e: ...\<close>.\<close>

definition then_do :: "exn + 'a \<Rightarrow> ('a \<Rightarrow> exn + 'b) \<Rightarrow> exn + 'b" where
  "then_do m f = (case m of Inl e \<Rightarrow> Inl e | Inr x \<Rightarrow> f x)"

definition try_except :: "exn + 'a \<Rightarrow> (exn \<Rightarrow> exn + 'a) \<Rightarrow> exn + 'a" where
  "try_except body handler = (case body of Inl e \<Rightarrow> handler e | Inr x \<Rightarrow> Inr x)"

text \<open>Python truth of an optional string: \<open>None\<close> and the empty string are false.\<close>

definition falsy :: "string option \<Rightarrow> bool" where
  "falsy x = (x = None \<or> x = Some [])"

text \<open>\<open>WebScraper.scrape_article\<close>. An exception of the extraction or of the metadata
  extractor is printed and raised again.\<close>

definition scrape_article ::
  "external \<Rightarrow> 'ai components \<Rightarrow> strategies \<Rightarrow> string \<Rightarrow> extractor_state
     \<Rightarrow> (exn + ArticleContent) \<times> extractor_state" where
  "scrape_article ext c s url' st =
     (if \<not> validate_url ext url' then (Inl (ValueError (''Invalid URL: '' @ url')), st)
      else
        (case extract_content ext s url' st of
           (Inl e, st', invoked) \<Rightarrow> (Inl e, st')
         | (Inr article_content, st', invoked) \<Rightarrow>
             if falsy (ArticleContent.title article_content) \<or> falsy (author article_content)
             then
               (case extract_article_metadata c url' of
                  Inl e \<Rightarrow> (Inl e, st')
                | Inr additional_metadata \<Rightarrow>
                    let a1 = (if falsy (ArticleContent.title article_content)
                                 \<and> \<not> falsy (additional_metadata ''title'')
                              then article_content\<lparr>ArticleContent.title :=
                                     additional_metadata ''title''\<rparr>
                              else article_content);
                        a2 = (if falsy (author a1) \<and> \<not> falsy (additional_metadata ''author'')
                              then a1\<lparr>author := additional_metadata ''author''\<rparr> else a1);
                        a3 = (if falsy (ArticleContent.publish_date a2)
                                 \<and> \<not> falsy (additional_metadata ''publication_date'')
                              then a2\<lparr>ArticleContent.publish_date :=
                                     additional_metadata ''publication_date''\<rparr>
                              else a2)
                    in (Inr a3, st'))
             else (Inr article_content, st')))"

text \<open>\<open>AnalysisOrchestrator._merge_language_analysis\<close>.\<close>

fun add_unique :: "string list \<Rightarrow> string list \<Rightarrow> string list" where
  "add_unique merged [] = merged"
| "add_unique merged (x # xs) = add_unique (if x \<notin> set merged then merged @ [x] else merged) xs"

definition merge_language_analysis :: "LanguageAnalysis \<Rightarrow> LanguageAnalysis \<Rightarrow> LanguageAnalysis" where
  "merge_language_analysis traditional_analysis ai_analysis =
     \<lparr>tone = tone ai_analysis,
      bias_indicators =
        take 15 (add_unique (bias_indicators ai_analysis) (bias_indicators traditional_analysis)),
      loaded_language =
        take 15 (add_unique (loaded_language ai_analysis) (loaded_language traditional_analysis)),
      emotional_words =
        take 15 (add_unique (emotional_words ai_analysis) (emotional_words traditional_analysis)),
      persuasive_techniques =
        take 10 (add_unique (persuasive_techniques ai_analysis)
          (persuasive_techniques traditional_analysis))\<rparr>"

text \<open>Constructing an \<open>AnalysisResult\<close> validates its two scores (\<open>Field(ge=0.0, le=1.0)\<close>);
  the validation error of the model library is a \<open>ValueError\<close>.\<close>

definition validated :: "AnalysisResult \<Rightarrow> exn + AnalysisResult" where
  "validated r =
     (if 0 \<le> bias_confidence r \<and> bias_confidence r \<le> 1
         \<and> 0 \<le> overall_credibility r \<and> overall_credibility r \<le> 1
      then Inr r else Inl (ValueError ''validation error for AnalysisResult''))"

text \<open>Steps 2 to 11 of \<open>analyze_article\<close>, after the article has been scraped.\<close>

definition analysis_steps ::
  "'ai components \<Rightarrow> AnalysisRequest \<Rightarrow> ArticleContent \<Rightarrow> exn + AnalysisResult \<times> string" where
  "analysis_steps c request article_content =
     then_do (if include_entity_analysis request
              then extract_entities c (content article_content)
                     (ArticleContent.title article_content)
              else Inr []) (\<lambda>entities'.
     then_do (if include_source_check request
              then extract_source_metrics c (domain article_content) (AnalysisRequest.url request)
              else Inr None) (\<lambda>source_metrics'.
     then_do (extract_claims c (content article_content)
                (ArticleContent.title article_content)) (\<lambda>traditional_claims.
     then_do (detect_language_bias c (content article_content)
                (ArticleContent.title article_content)) (\<lambda>traditional_language_analysis.
     then_do (detect_structural_bias c (content article_content)) (\<lambda>traditional_red_flags.
     then_do (analyzer_analyze_article c (content article_content) (AnalysisRequest.url request)
                (ArticleContent.title article_content) (author article_content)
                (domain article_content)
                (ArticleContent.publish_date article_content)) (\<lambda>ai_analysis_data.
     then_do (parse_analysis_to_models c ai_analysis_data) (\<lambda>parsed_ai.
     let all_claims = merge_claims traditional_claims (parsed_claims parsed_ai);
         all_red_flags = merge_red_flags traditional_red_flags (parsed_red_flags parsed_ai);
         final_language_analysis =
           merge_language_analysis traditional_language_analysis
             (parsed_language_analysis parsed_ai)
     in
     then_do (generate_verification_questions c all_claims entities'
                (content article_content) (domain article_content)) (\<lambda>verification_questions'.
     let temp_analysis_result =
           \<lparr>article = article_content, core_claims = all_claims,
            language_analysis = final_language_analysis, red_flags = all_red_flags,
            verification_questions = verification_questions', entities = entities',
            source_metrics = source_metrics', counter_narrative = None,
            bias_confidence = parsed_bias_confidence parsed_ai,
            overall_credibility = parsed_overall_credibility parsed_ai\<rparr>
     in
     then_do (if include_counter_narrative request
              then then_do (validated temp_analysis_result) (generate_counter_narrative c)
              else Inr None) (\<lambda>counter_narrative'.
     then_do (validated (temp_analysis_result\<lparr>counter_narrative := counter_narrative'\<rparr>))
       (\<lambda>analysis_result.
     then_do (format_analysis_report c analysis_result) (\<lambda>markdown_report'.
     Inr (analysis_result, markdown_report'))))))))))))"

text \<open>The body of the \<open>try\<close> block of \<open>analyze_article\<close>: scraping, then the steps above.\<close>

definition analysis_pipeline ::
  "external \<Rightarrow> 'ai components \<Rightarrow> strategies \<Rightarrow> AnalysisRequest \<Rightarrow> extractor_state
     \<Rightarrow> (exn + AnalysisResult \<times> string) \<times> extractor_state" where
  "analysis_pipeline ext c s request st =
     (case scrape_article ext c s (AnalysisRequest.url request) st of
        (Inl e, st') \<Rightarrow> (Inl e, st')
      | (Inr article_content, st') \<Rightarrow> (analysis_steps c request article_content, st'))"

text \<open>
  \<open>AnalysisOrchestrator.analyze_article\<close>. The two readings of the clock, \<open>start_time\<close> at
  entry and \<open>end_time\<close> when the processing time is computed, are inputs.
\<close>

definition analyze_article ::
  "external \<Rightarrow> 'ai components \<Rightarrow> strategies \<Rightarrow> AnalysisRequest \<Rightarrow> rat \<Rightarrow> rat
     \<Rightarrow> extractor_state \<Rightarrow> (exn + AnalysisResponse) \<times> extractor_state" where
  "analyze_article ext c s request start_time end_time st =
     (case analysis_pipeline ext c s request st of
        (body, st') \<Rightarrow>
          (try_except
             (then_do body (\<lambda>(analysis_result, markdown_report').
                Inr \<lparr>success = True, result = Some analysis_result,
                     markdown_report = Some markdown_report', error = None,
                     processing_time = Some (end_time - start_time)\<rparr>))
             (\<lambda>e. Inr \<lparr>success = False, result = None, markdown_report = None,
                     error = Some (''Analysis failed: '' @ str_exn e),
                     processing_time = Some (end_time - start_time)\<rparr>),
           st'))"

text \<open>A strategy result that is an empty or whitespace-only text.\<close>

definition blank_result :: "exn + string option \<Rightarrow> bool" where
  "blank_result r = (case r of Inr (Some t) \<Rightarrow> list_all is_space t | _ \<Rightarrow> False)"

section \<open>Properties of the string functions\<close>


lemma split_Cons_space: "is_space c \<Longrightarrow> split (c # cs) = split cs"
  by simp

lemma split_Cons_word: "\<not> is_space c \<Longrightarrow> split (c # cs) = (c # takeWhile (\<lambda>x. \<not> is_space x) cs) # split (dropWhile (\<lambda>x. \<not> is_space x) cs)"
  by simp

lemma split_words_ok: "w \<in> set (split s) \<Longrightarrow> w \<noteq> [] \<and> (\<forall>c \<in> set w. \<not> is_space c)"
proof (induction s rule: split.induct)
  case 1
  then show ?case by simp
next
  case (2 c cs)
  show ?case
  proof (cases "is_space c")
    case True
    then have "w \<in> set (split cs)" using 2(3) by (simp only: split_Cons_space)
    then show ?thesis using 2(1) [OF True] by blast
  next
    case False
    then have "w = c # takeWhile (\<lambda>x. \<not> is_space x) cs
        \<or> w \<in> set (split (dropWhile (\<lambda>x. \<not> is_space x) cs))"
      using 2(3) by (simp add: split_Cons_word del: split.simps)
    then show ?thesis
    proof
      assume w: "w = c # takeWhile (\<lambda>x. \<not> is_space x) cs"
      have "\<And>x. x \<in> set (takeWhile (\<lambda>x. \<not> is_space x) cs) \<Longrightarrow> \<not> is_space x"
        by (rule set_takeWhileD [THEN conjunct2])
      then show ?thesis using w False by auto
    next
      assume "w \<in> set (split (dropWhile (\<lambda>x. \<not> is_space x) cs))"
      then show ?thesis using 2(2) [OF False] by blast
    qed
  qed
qed

lemma split_word_append:
  assumes "w \<noteq> []" "\<forall>c \<in> set w. \<not> is_space c" "rest = [] \<or> is_space (hd rest)"
  shows "split (w @ rest) = w # split rest"
proof -
  obtain c cs where w: "w = c # cs" using assms(1) by (cases w) auto
  have tw: "takeWhile (\<lambda>x. \<not> is_space x) (cs @ rest) = cs"
    using assms w by (cases rest) (auto simp: takeWhile_append2 takeWhile_eq_all_conv)
  have dw: "dropWhile (\<lambda>x. \<not> is_space x) (cs @ rest) = rest"
    using assms w by (cases rest) (auto simp: dropWhile_append2)
  show ?thesis using assms w tw dw by simp
qed

lemma split_join:
  "\<forall>w \<in> set ws. w \<noteq> [] \<and> (\<forall>c \<in> set w. \<not> is_space c) \<Longrightarrow> split (join ws) = ws"
proof (induction ws rule: join.induct)
  case 1
  then show ?case by simp
next
  case (2 w)
  then show ?case using split_word_append [of w "[]"] by simp
next
  case (3 w v ws)
  have sp: "is_space CHR '' ''" by code_simp
  have w: "w \<noteq> []" "\<forall>c \<in> set w. \<not> is_space c"
    using 3(2) by simp_all
  have "split (w @ CHR '' '' # join (v # ws)) = w # split (CHR '' '' # join (v # ws))"
    using split_word_append [OF w, of "CHR '' '' # join (v # ws)"] sp by simp
  also have "split (CHR '' '' # join (v # ws)) = split (join (v # ws))"
    using sp by simp
  also have "\<dots> = v # ws" using 3 by simp
  finally show ?case by simp
qed

lemma split_join_split: "split (join (split s)) = split s"
  by (rule split_join) (use split_words_ok in blast)

lemma claims_similar_jaccard:
  "claims_similar (join (split (lower a))) (join (split (lower b)))
     \<longleftrightarrow> jaccard (word_set a) (word_set b) > 6 / 10"
  by (simp add: claims_similar_def jaccard_def word_set_def split_join_split Let_def card_gt_0_iff)

section \<open>Properties of the reconciliation\<close>

lemma sorted_reverse_mset: "mset (sorted_reverse k xs) = mset xs"
  by (simp add: sorted_reverse_def)

lemma sorted_reverse_length: "length (sorted_reverse k xs) = length xs"
  by (simp add: sorted_reverse_def)


lemma sorted_reverse_desc: "sorted_wrt (\<lambda>x y. k x \<ge> k y) (sorted_reverse k xs)"
proof -
  have "sorted (map k (sort_key k (rev xs)))" by simp
  then have "sorted_wrt (\<lambda>x y. k x \<le> k y) (sort_key k (rev xs))"
    by (simp add: sorted_wrt_map)
  then show ?thesis
    by (simp add: sorted_reverse_def sorted_wrt_rev)
qed

lemma sorted_wrt_take: "sorted_wrt P xs \<Longrightarrow> sorted_wrt P (take n xs)"
  by (metis append_take_drop_id sorted_wrt_append)

lemma merge_claims_step_eq:
  "merge_claims_step (U, (\<lambda>c. join (split (lower (claim c)))) ` set U) c =
     (if \<exists>k \<in> set U. jaccard (word_set (claim c)) (word_set (claim k)) > 6 / 10
      then (U, (\<lambda>c. join (split (lower (claim c)))) ` set U)
      else (U @ [c], (\<lambda>c. join (split (lower (claim c)))) ` set (U @ [c])))"
  by (auto simp: merge_claims_step_def Let_def claims_similar_jaccard)

lemma merge_claims_loop:
  "foldl merge_claims_step (U, (\<lambda>c. join (split (lower (claim c)))) ` set U) cs
     = (first_seen (6 / 10) U cs,
        (\<lambda>c. join (split (lower (claim c)))) ` set (first_seen (6 / 10) U cs))"
proof (induction cs arbitrary: U)
  case Nil
  then show ?case by simp
next
  case (Cons c cs)
  show ?case
  proof (cases "\<exists>k \<in> set U. jaccard (word_set (claim c)) (word_set (claim k)) > 6 / 10")
    case True
    then show ?thesis
      using Cons.IH [of U] by (simp only: foldl_Cons merge_claims_step_eq first_seen.simps if_True)
  next
    case False
    then show ?thesis
      using Cons.IH [of "U @ [c]"]
      by (simp only: foldl_Cons merge_claims_step_eq first_seen.simps if_False)
  qed
qed

lemma merge_claims_eq:
  "merge_claims h a = take 8 (sorted_reverse Claim.confidence (first_seen (6 / 10) [] (h @ a)))"
  using merge_claims_loop [of "[]" "h @ a"] by (simp add: merge_claims_def)

text \<open>
  C1. For every pair of input lists, the claim merge concatenates the heuristic claims
  and the AI claims in that order, walks through them keeping a claim unless the Jaccard
  similarity of its normalised word-set with the word-set of an already kept claim
  exceeds 0.6 (the first one seen wins), sorts the survivors by confidence, highest
  first (a rearrangement of the survivors), and returns at most the first 8.
\<close>

theorem merge_claims_spec:
  "merge_claims h a = take 8 (sorted_reverse Claim.confidence (first_seen (6 / 10) [] (h @ a)))
   \<and> mset (sorted_reverse Claim.confidence (first_seen (6 / 10) [] (h @ a)))
       = mset (first_seen (6 / 10) [] (h @ a))
   \<and> sorted_wrt (\<lambda>x y. Claim.confidence x \<ge> Claim.confidence y) (merge_claims h a)
   \<and> length (merge_claims h a) \<le> 8"
proof (intro conjI)
  show "merge_claims h a = take 8 (sorted_reverse Claim.confidence (first_seen (6 / 10) [] (h @ a)))"
    by (rule merge_claims_eq)
  show "mset (sorted_reverse Claim.confidence (first_seen (6 / 10) [] (h @ a)))
       = mset (first_seen (6 / 10) [] (h @ a))"
    by (rule sorted_reverse_mset)
  show "sorted_wrt (\<lambda>x y. Claim.confidence x \<ge> Claim.confidence y) (merge_claims h a)"
    unfolding merge_claims_eq by (rule sorted_wrt_take) (rule sorted_reverse_desc)
  show "length (merge_claims h a) \<le> 8"
    unfolding merge_claims_eq by simp
qed

lemma first_seen_append:
  "first_seen t kept (xs @ ys) = first_seen t (first_seen t kept xs) ys"
  by (induction xs arbitrary: kept) simp_all

lemma first_seen_keeps: "set kept \<subseteq> set (first_seen t kept xs)"
proof (induction xs arbitrary: kept)
  case Nil
  then show ?case by simp
next
  case (Cons c cs)
  show ?case using Cons.IH [of kept] Cons.IH [of "kept @ [c]"] by auto
qed

lemma first_seen_covers:
  "c \<in> set xs \<Longrightarrow>
     c \<in> set (first_seen t kept xs)
     \<or> (\<exists>k \<in> set (first_seen t kept xs). jaccard (word_set (claim c)) (word_set (claim k)) > t)"
proof (induction xs arbitrary: kept)
  case Nil
  then show ?case by simp
next
  case (Cons x xs)
  show ?case
  proof (cases "c = x")
    case True
    show ?thesis
    proof (cases "\<exists>k \<in> set kept. jaccard (word_set (claim x)) (word_set (claim k)) > t")
      case dup: True
      then obtain k where "k \<in> set kept" "jaccard (word_set (claim x)) (word_set (claim k)) > t"
        by blast
      then show ?thesis using True dup first_seen_keeps [of kept t xs] by auto
    next
      case False
      then show ?thesis using True first_seen_keeps [of "kept @ [x]" t xs] by auto
    qed
  next
    case False
    then have "c \<in> set xs" using Cons.prems by simp
    then show ?thesis using Cons.IH [of kept] Cons.IH [of "kept @ [x]"] by simp
  qed
qed

lemma first_seen_absorb:
  "\<forall>c \<in> set ys. \<exists>k \<in> set kept. jaccard (word_set (claim c)) (word_set (claim k)) > t
     \<Longrightarrow> first_seen t kept ys = kept"
  by (induction ys) simp_all

lemma jaccard_self: "finite A \<Longrightarrow> A \<noteq> {} \<Longrightarrow> jaccard A A = 1"
  by (simp add: jaccard_def)

lemma finite_word_set: "finite (word_set s)"
  by (simp add: word_set_def)

lemma first_seen_twice:
  assumes "t < 1" "\<forall>c \<in> set L. word_set (claim c) \<noteq> {}"
  shows "first_seen t [] (L @ L) = first_seen t [] L"
proof -
  have "\<forall>c \<in> set L. \<exists>k \<in> set (first_seen t [] L).
          jaccard (word_set (claim c)) (word_set (claim k)) > t"
  proof
    fix c assume c: "c \<in> set L"
    then have self: "jaccard (word_set (claim c)) (word_set (claim c)) > t"
      using assms jaccard_self [OF finite_word_set, of "claim c"] by simp
    from first_seen_covers [OF c, of t "[]"]
    show "\<exists>k \<in> set (first_seen t [] L). jaccard (word_set (claim c)) (word_set (claim k)) > t"
      using self by blast
  qed
  then show ?thesis
    by (simp add: first_seen_append first_seen_absorb)
qed

lemma first_seen_all_kept:
  "\<forall>k \<in> set kept. \<forall>c \<in> set xs. \<not> jaccard (word_set (claim c)) (word_set (claim k)) > t \<Longrightarrow>
   sorted_wrt (\<lambda>k c. \<not> jaccard (word_set (claim c)) (word_set (claim k)) > t) xs \<Longrightarrow>
   first_seen t kept xs = kept @ xs"
proof (induction xs arbitrary: kept)
  case Nil
  then show ?case by simp
next
  case (Cons x xs)
  have nodup: "\<not> (\<exists>k \<in> set kept. jaccard (word_set (claim x)) (word_set (claim k)) > t)"
    using Cons.prems(1) by auto
  have "first_seen t (kept @ [x]) xs = (kept @ [x]) @ xs"
  proof (rule Cons.IH)
    show "\<forall>k \<in> set (kept @ [x]). \<forall>c \<in> set xs.
            \<not> jaccard (word_set (claim c)) (word_set (claim k)) > t"
      using Cons.prems by auto
    show "sorted_wrt (\<lambda>k c. \<not> jaccard (word_set (claim c)) (word_set (claim k)) > t) xs"
      using Cons.prems(2) by simp
  qed
  then show ?case using nodup by simp
qed

text \<open>
  C6 (as amended). For every list \<open>L\<close> whose claims each contain at least one word, merging
  \<open>L\<close> with itself gives exactly the result of merging \<open>L\<close> with the empty list: every
  AI-side copy is deduplicated against a kept heuristic-side claim. The size of the result
  equals the size of \<open>L\<close> when, in addition, \<open>L\<close> has at most 8 claims and no claim of
  \<open>L\<close> is similar to an earlier one.
\<close>

theorem merge_claims_self:
  assumes "\<forall>c \<in> set L. word_set (claim c) \<noteq> {}"
  shows "merge_claims L L = merge_claims L []
    \<and> (length L \<le> 8 \<and> pairwise_dissimilar L \<longrightarrow> length (merge_claims L L) = length L)"
proof (intro conjI impI)
  have twice: "first_seen (6 / 10) [] (L @ L) = first_seen (6 / 10) [] L"
    using assms by (intro first_seen_twice) simp_all
  show eq: "merge_claims L L = merge_claims L []"
    by (simp only: merge_claims_eq twice append_Nil2)
  assume h: "length L \<le> 8 \<and> pairwise_dissimilar L"
  then have "first_seen (6 / 10) [] L = [] @ L"
    unfolding pairwise_dissimilar_def by (intro first_seen_all_kept) simp_all
  then show "length (merge_claims L L) = length L"
    using h by (simp only: merge_claims_eq twice) (simp add: sorted_reverse_length)
qed

theorem merge_claims_self_witness:
  "list_all (\<lambda>c. word_set (claim c) \<noteq> {}) (take 3 nine_claims)
   \<and> length (take 3 nine_claims) \<le> 8 \<and> pairwise_dissimilar (take 3 nine_claims)
   \<and> merge_claims (take 3 nine_claims) (take 3 nine_claims) = merge_claims (take 3 nine_claims) []
   \<and> length (merge_claims (take 3 nine_claims) (take 3 nine_claims)) = length (take 3 nine_claims)"
proof -
  have h1: "list_all (\<lambda>c. word_set (claim c) \<noteq> {}) (take 3 nine_claims)" by code_simp
  have h2: "length (take 3 nine_claims) \<le> 8" by code_simp
  have h3: "pairwise_dissimilar (take 3 nine_claims)" by code_simp
  from h1 have "\<forall>c \<in> set (take 3 nine_claims). word_set (claim c) \<noteq> {}"
    by (simp only: list_all_iff)
  from merge_claims_self [OF this] h1 h2 h3 show ?thesis by blast
qed

text \<open>
  The size is not that of \<open>L\<close> in general: two claims of \<open>L\<close> with the same words are
  merged with each other (2 claims give 1), a claim without any word has Jaccard
  similarity 0 with its own copy and is kept twice (1 claim gives 2), and the result is
  cut at 8 (9 claims give 8).
\<close>

theorem merge_claims_self_counterexample:
  "length (merge_claims [mk_claim ''the sky is blue'' (1 / 2), mk_claim ''The sky  is blue'' (1 / 2)]
             [mk_claim ''the sky is blue'' (1 / 2), mk_claim ''The sky  is blue'' (1 / 2)])
     \<noteq> length [mk_claim ''the sky is blue'' (1 / 2), mk_claim ''The sky  is blue'' (1 / 2)]
   \<and> length (merge_claims [mk_claim [] (1 / 2)] [mk_claim [] (1 / 2)]) \<noteq> length [mk_claim [] (1 / 2)]
   \<and> length (merge_claims nine_claims nine_claims) \<noteq> length nine_claims"
  by code_simp













lemma merge_red_flags_example: "map description (merge_red_flags [mk_flag ''B  b'' MEDIUM 1, mk_flag ''a'' LOW 1, mk_flag ''c'' HIGH (1/2)]
   [mk_flag ''b B'' HIGH (1/3), mk_flag ''A'' HIGH 1, mk_flag ''d'' HIGH (1/2)]) = [''c'', ''d'', ''B  b'', ''a'']"
  by code_simp

section \<open>Properties of the intra-source deduplication\<close>

lemma extractor_claims_similar_jaccard:
  "extractor_claims_similar (join (split (strip_punctuation (lower (claim a)))))
       (join (split (strip_punctuation (lower (claim b)))))
     \<longleftrightarrow> jaccard (dedup_word_set a) (dedup_word_set b) > 7 / 10"
  by (simp add: extractor_claims_similar_def jaccard_def dedup_word_set_def split_join_split
      Let_def card_gt_0_iff)

lemma deduplicate_claims_pair:
  "deduplicate_claims [c1, c2] =
     (if jaccard (dedup_word_set c2) (dedup_word_set c1) > 7 / 10 then [c1] else [c1, c2])"
  by (simp add: deduplicate_claims_def deduplicate_claims_step_def Let_def
      extractor_claims_similar_jaccard)

lemma jaccard_cards:
  "finite A \<Longrightarrow> finite B \<Longrightarrow> card (A \<union> B) = u \<Longrightarrow> card (A \<inter> B) = i \<Longrightarrow> 0 < u \<Longrightarrow>
   jaccard A B = of_nat i / of_nat u"
  by (auto simp: jaccard_def)

lemma finite_dedup_word_set: "finite (dedup_word_set c)"
  by (simp add: dedup_word_set_def)

text \<open>
  C5 (as amended). In the intra-source deduplication, a second claim is discarded exactly
  when the Jaccard similarity of its normalised word-set with that of the first claim is
  strictly above 0.7. A pair sharing 7 words of a 10-word union (similarity exactly 0.7)
  is kept as two distinct claims, as is a pair sharing 6 of 10; a pair sharing 8 of 10 is
  merged, the first claim being kept.
\<close>

theorem deduplicate_claims_boundary:
  "deduplicate_claims [c1, c2] =
     (if jaccard (dedup_word_set c2) (dedup_word_set c1) > 7 / 10 then [c1] else [c1, c2])
   \<and> (card (dedup_word_set c1 \<inter> dedup_word_set c2) = 7
        \<and> card (dedup_word_set c1 \<union> dedup_word_set c2) = 10
      \<longrightarrow> deduplicate_claims [c1, c2] = [c1, c2])
   \<and> (card (dedup_word_set c1 \<inter> dedup_word_set c2) = 6
        \<and> card (dedup_word_set c1 \<union> dedup_word_set c2) = 10
      \<longrightarrow> deduplicate_claims [c1, c2] = [c1, c2])
   \<and> (card (dedup_word_set c1 \<inter> dedup_word_set c2) = 8
        \<and> card (dedup_word_set c1 \<union> dedup_word_set c2) = 10
      \<longrightarrow> deduplicate_claims [c1, c2] = [c1])"
proof (intro conjI impI)
  show "deduplicate_claims [c1, c2] =
     (if jaccard (dedup_word_set c2) (dedup_word_set c1) > 7 / 10 then [c1] else [c1, c2])"
    by (rule deduplicate_claims_pair)
next
  assume "card (dedup_word_set c1 \<inter> dedup_word_set c2) = 7
        \<and> card (dedup_word_set c1 \<union> dedup_word_set c2) = 10"
  then have "jaccard (dedup_word_set c2) (dedup_word_set c1) = of_nat 7 / of_nat 10"
    by (intro jaccard_cards) (simp_all add: finite_dedup_word_set Int_commute Un_commute)
  then show "deduplicate_claims [c1, c2] = [c1, c2]"
    by (simp add: deduplicate_claims_pair)
next
  assume "card (dedup_word_set c1 \<inter> dedup_word_set c2) = 6
        \<and> card (dedup_word_set c1 \<union> dedup_word_set c2) = 10"
  then have "jaccard (dedup_word_set c2) (dedup_word_set c1) = of_nat 6 / of_nat 10"
    by (intro jaccard_cards) (simp_all add: finite_dedup_word_set Int_commute Un_commute)
  then show "deduplicate_claims [c1, c2] = [c1, c2]"
    by (simp add: deduplicate_claims_pair)
next
  assume "card (dedup_word_set c1 \<inter> dedup_word_set c2) = 8
        \<and> card (dedup_word_set c1 \<union> dedup_word_set c2) = 10"
  then have "jaccard (dedup_word_set c2) (dedup_word_set c1) = of_nat 8 / of_nat 10"
    by (intro jaccard_cards) (simp_all add: finite_dedup_word_set Int_commute Un_commute)
  then show "deduplicate_claims [c1, c2] = [c1]"
    by (simp add: deduplicate_claims_pair)
qed

lemma cards7: "card (dedup_word_set claim_nine_words \<inter> dedup_word_set claim_seven_shared) = 7
   \<and> card (dedup_word_set claim_nine_words \<union> dedup_word_set claim_seven_shared) = 10"
  by code_simp

lemma cards6: "card (dedup_word_set claim_nine_words \<inter> dedup_word_set claim_six_shared) = 6
   \<and> card (dedup_word_set claim_nine_words \<union> dedup_word_set claim_six_shared) = 10"
  by code_simp

lemma cards8: "card (dedup_word_set claim_nine_words \<inter> dedup_word_set claim_eight_shared) = 8
   \<and> card (dedup_word_set claim_nine_words \<union> dedup_word_set claim_eight_shared) = 10"
  by code_simp

theorem deduplicate_claims_boundary_witness:
  "card (dedup_word_set claim_nine_words \<inter> dedup_word_set claim_seven_shared) = 7
   \<and> card (dedup_word_set claim_nine_words \<union> dedup_word_set claim_seven_shared) = 10
   \<and> deduplicate_claims [claim_nine_words, claim_seven_shared]
       = [claim_nine_words, claim_seven_shared]
   \<and> card (dedup_word_set claim_nine_words \<inter> dedup_word_set claim_six_shared) = 6
   \<and> card (dedup_word_set claim_nine_words \<union> dedup_word_set claim_six_shared) = 10
   \<and> deduplicate_claims [claim_nine_words, claim_six_shared]
       = [claim_nine_words, claim_six_shared]
   \<and> card (dedup_word_set claim_nine_words \<inter> dedup_word_set claim_eight_shared) = 8
   \<and> card (dedup_word_set claim_nine_words \<union> dedup_word_set claim_eight_shared) = 10
   \<and> deduplicate_claims [claim_nine_words, claim_eight_shared] = [claim_nine_words]"
  using deduplicate_claims_boundary [of claim_nine_words claim_seven_shared]
    deduplicate_claims_boundary [of claim_nine_words claim_six_shared]
    deduplicate_claims_boundary [of claim_nine_words claim_eight_shared]
    cards7 cards6 cards8
  by blast

text \<open>
  Two claims sharing 7 of 10 normalised words: the second one is not discarded.
\<close>

theorem deduplicate_claims_boundary_counterexample:
  "card (dedup_word_set claim_nine_words \<inter> dedup_word_set claim_seven_shared) = 7
   \<and> card (dedup_word_set claim_nine_words \<union> dedup_word_set claim_seven_shared) = 10
   \<and> deduplicate_claims [claim_nine_words, claim_seven_shared] \<noteq> [claim_nine_words]
   \<and> length (deduplicate_claims [claim_nine_words, claim_seven_shared]) = 2"
  by code_simp

section \<open>Properties of the content validation\<close>

lemma count_sub_single: "count_sub s [c] = count_list s c"
  by (induction s) auto

text \<open>
  C4 (as amended). For every text \<open>T\<close>, \<open>is_article_content(T)\<close> is true if and only if \<open>T\<close>
  has length at least 500, at least 3 paragraph breaks (non-overlapping occurrences of two
  consecutive newlines), at least 5 full stops (only the character \<open>.\<close> is counted, not
  \<open>!\<close> or \<open>?\<close>), and none of the fixed not-an-article phrases occurs in the lowercased
  text.
\<close>

theorem is_article_content_iff:
  "is_article_content T \<longleftrightarrow>
     length T \<ge> 500 \<and> count_sub T [nl, nl] \<ge> 3 \<and> count_list T CHR ''.'' \<ge> 5
     \<and> \<not> (\<exists>p \<in> set non_article_indicators. sublist p (lower T))"
proof -
  have "count_sub T ''.'' = count_list T CHR ''.''"
    by (rule count_sub_single)
  then show ?thesis
    by (auto simp: is_article_content_def MIN_CONTENT_LENGTH_def MIN_PARAGRAPHS_def
        list_ex_iff Let_def)
qed

theorem is_article_content_iff_witness:
  "is_article_content article_text \<and> length article_text \<ge> 500
   \<and> count_sub article_text [nl, nl] \<ge> 3 \<and> count_list article_text CHR ''.'' \<ge> 5
   \<and> \<not> is_article_content (tl article_text)"
proof -
  have "is_article_content article_text" by code_simp
  moreover have "\<not> is_article_content (tl article_text)" by code_simp
  ultimately show ?thesis
    using is_article_content_iff [of article_text] by blast
qed

text \<open>
  A text of 500 characters with three paragraph breaks, five sentence terminators \<open>!\<close>
  and no blocked phrase is not accepted: \<open>!\<close> and \<open>?\<close> do not count.
\<close>

theorem is_article_content_counterexample:
  "\<not> is_article_content exclaiming_text
   \<and> length exclaiming_text \<ge> 500
   \<and> count_sub exclaiming_text [nl, nl] \<ge> 3
   \<and> count_sub exclaiming_text ''.'' + count_sub exclaiming_text ''!''
        + count_sub exclaiming_text ''?'' \<ge> 5
   \<and> \<not> list_ex (\<lambda>p. sublist p (lower exclaiming_text)) non_article_indicators"
  by code_simp






lemma count_sub_short: "length s < length sub \<Longrightarrow> count_sub s sub = 0"
proof (induction s)
  case Nil
  then show ?case by auto
next
  case (Cons c cs)
  have "\<not> prefix sub (c # cs)"
    using Cons.prems prefix_length_le [of sub "c # cs"] by auto
  moreover have "sub \<noteq> []" using Cons.prems by auto
  ultimately show ?case using Cons by simp
qed

lemma prefix_append_longer:
  "prefix sub (s @ e) \<Longrightarrow> \<not> prefix sub s \<Longrightarrow> length s < length sub"
  by (auto simp: prefix_append)

lemma count_sub_append_mono: "count_sub s sub \<le> count_sub (s @ e) sub"
proof (induction s sub rule: count_sub.induct)
  case (1 sub)
  then show ?case by (cases e) auto
next
  case (2 c cs sub)
  show ?case
  proof (cases "sub = []")
    case True
    then show ?thesis using 2(1) by simp
  next
    case ne: False
    show ?thesis
    proof (cases "prefix sub (c # cs)")
      case True
      then have p: "prefix sub (c # cs @ e)"
        by (metis append_Cons prefix_prefix)
      have "length sub \<le> length (c # cs)" using True by (rule prefix_length_le)
      then have d: "drop (length sub) (c # cs @ e) = drop (length sub) (c # cs) @ e"
        using drop_append [of "length sub" "c # cs" e] by simp
      show ?thesis using 2(2) [OF ne True] ne True p d
        by (simp del: prefix_code drop_Suc_Cons)
    next
      case False
      show ?thesis
      proof (cases "prefix sub (c # cs @ e)")
        case True
        then have "length (c # cs) < length sub"
          using prefix_append_longer [of sub "c # cs" e] False by simp
        then have "count_sub cs sub = 0" by (intro count_sub_short) simp
        then show ?thesis using ne False by simp
      next
        case np: False
        show ?thesis using 2(3) [OF ne False] ne False np by simp
      qed
    qed
  qed
qed


lemma length_part_mono:
  fixes n m :: nat
  assumes "n \<le> m"
  shows "(if n \<ge> 500 then min (3 / 10) (of_nat n / 10000 * (3 / 10)) else (0::rat))
       \<le> (if m \<ge> 500 then min (3 / 10) (of_nat m / 10000 * (3 / 10)) else 0)"
proof -
  have "(of_nat n :: rat) \<le> of_nat m" using assms by simp
  then have "(of_nat n :: rat) / 10000 * (3 / 10) \<le> of_nat m / 10000 * (3 / 10)"
    by (simp add: divide_right_mono mult_right_mono)
  moreover have "(0::rat) \<le> of_nat m / 10000 * (3 / 10)" by simp
  ultimately show ?thesis using assms by (auto simp: min_def)
qed

lemma paragraph_part_mono:
  fixes n m :: nat
  assumes "n \<le> m"
  shows "(if n \<ge> 3 then min (3 / 10) (of_nat n / 10 * (3 / 10)) else (0::rat))
       \<le> (if m \<ge> 3 then min (3 / 10) (of_nat m / 10 * (3 / 10)) else 0)"
proof -
  have "(of_nat n :: rat) \<le> of_nat m" using assms by simp
  then have "(of_nat n :: rat) / 10 * (3 / 10) \<le> of_nat m / 10 * (3 / 10)"
    by (simp add: divide_right_mono mult_right_mono)
  moreover have "(0::rat) \<le> of_nat m / 10 * (3 / 10)" by simp
  ultimately show ?thesis using assms by (auto simp: min_def)
qed

lemma add_if: "(if c then x + a else x) = x + (if c then a else (0::rat))"
  by simp

lemma add_case_option:
  "(case t of None \<Rightarrow> x | Some v \<Rightarrow> x + f v)
     = x + (case t of None \<Rightarrow> 0 | Some v \<Rightarrow> (f v :: rat))"
  by (simp split: option.split)

lemma calculate_content_quality_sum:
  assumes "doc \<noteq> []"
  shows "calculate_content_quality ext doc ttl =
     min 1
       ((if length doc \<ge> 500
         then min (3 / 10) (of_nat (length doc) / 10000 * (3 / 10)) else 0)
        + (if count_sub doc [nl, nl] + count_sub doc [nl, CHR '' '', nl] \<ge> 3
           then min (3 / 10)
             (of_nat (count_sub doc [nl, nl] + count_sub doc [nl, CHR '' '', nl]) / 10
               * (3 / 10))
           else 0)
        + (if 10 \<le> avg_sentence_length doc \<and> avg_sentence_length doc \<le> 100
           then 2 / 10 else 0)
        + (case ttl of None \<Rightarrow> 0
           | Some t \<Rightarrow> if t \<noteq> [] \<and> length t > 10 then 1 / 10 else 0)
        + (if langdetect_detect ext doc = Some ''en'' then 1 / 10 else 0))"
proof -
  have "calculate_content_quality ext doc ttl =
     min 1
       (0 + (if length doc \<ge> MIN_CONTENT_LENGTH
         then min (3 / 10) (of_nat (length doc) / 10000 * (3 / 10)) else 0)
        + (if count_sub doc [nl, nl] + count_sub doc [nl, CHR '' '', nl] \<ge> MIN_PARAGRAPHS
           then min (3 / 10)
             (of_nat (count_sub doc [nl, nl] + count_sub doc [nl, CHR '' '', nl]) / 10
               * (3 / 10))
           else 0)
        + (if 10 \<le> avg_sentence_length doc \<and> avg_sentence_length doc \<le> 100
           then 2 / 10 else 0)
        + (case ttl of None \<Rightarrow> 0
           | Some t \<Rightarrow> if t \<noteq> [] \<and> length t > 10 then 1 / 10 else 0)
        + (if langdetect_detect ext doc = Some ''en'' then 1 / 10 else 0))"
    using assms
    by (simp only: calculate_content_quality_def add_if add_case_option Let_def if_False)
  then show ?thesis
    by (simp only: MIN_CONTENT_LENGTH_def MIN_PARAGRAPHS_def add_0)
qed

lemma calculate_content_quality_range:
  "0 \<le> calculate_content_quality ext doc ttl
   \<and> calculate_content_quality ext doc ttl \<le> 1"
proof (cases "doc = []")
  case True
  then show ?thesis by (simp add: calculate_content_quality_def)
next
  case False
  have a: "(0::rat) \<le> (if length doc \<ge> 500
         then min (3 / 10) (of_nat (length doc) / 10000 * (3 / 10)) else 0)"
    by simp
  have b: "(0::rat) \<le> (if count_sub doc [nl, nl] + count_sub doc [nl, CHR '' '', nl] \<ge> 3
           then min (3 / 10)
             (of_nat (count_sub doc [nl, nl] + count_sub doc [nl, CHR '' '', nl]) / 10
               * (3 / 10))
           else 0)"
    by simp
  have c: "(0::rat) \<le> (if 10 \<le> avg_sentence_length doc \<and> avg_sentence_length doc \<le> 100
           then 2 / 10 else 0)"
    by simp
  have d: "(0::rat) \<le> (case ttl of None \<Rightarrow> 0
           | Some t \<Rightarrow> if t \<noteq> [] \<and> length t > 10 then 1 / 10 else 0)"
    by (simp split: option.split)
  have e: "(0::rat) \<le> (if langdetect_detect ext doc = Some ''en'' then 1 / 10 else 0)"
    by simp
  show ?thesis
    unfolding calculate_content_quality_sum [OF False]
    by (intro conjI min.boundedI min.cobounded1 add_nonneg_nonneg a b c d e) simp
qed

lemma calculate_content_quality_mono:
  assumes s: "10 \<le> avg_sentence_length T \<and> avg_sentence_length T \<le> 100
      \<longrightarrow> 10 \<le> avg_sentence_length (T @ E) \<and> avg_sentence_length (T @ E) \<le> 100"
    and g: "langdetect_detect ext T = Some ''en'' \<longrightarrow> langdetect_detect ext (T @ E) = Some ''en''"
  shows "calculate_content_quality ext T ttl \<le> calculate_content_quality ext (T @ E) ttl"
proof (cases "T = []")
  case True
  then show ?thesis
    using calculate_content_quality_range [of ext "T @ E" ttl]
    by (simp add: calculate_content_quality_def)
next
  case False
  then have ne: "T @ E \<noteq> []" by simp
  have l: "(if length T \<ge> 500 then min (3 / 10) (of_nat (length T) / 10000 * (3 / 10)) else (0::rat))
      \<le> (if length (T @ E) \<ge> 500
          then min (3 / 10) (of_nat (length (T @ E)) / 10000 * (3 / 10)) else 0)"
    by (rule length_part_mono) simp
  have "count_sub T [nl, nl] + count_sub T [nl, CHR '' '', nl]
      \<le> count_sub (T @ E) [nl, nl] + count_sub (T @ E) [nl, CHR '' '', nl]"
    by (intro add_mono count_sub_append_mono)
  then have p: "(if count_sub T [nl, nl] + count_sub T [nl, CHR '' '', nl] \<ge> 3
           then min (3 / 10)
             (of_nat (count_sub T [nl, nl] + count_sub T [nl, CHR '' '', nl]) / 10 * (3 / 10))
           else (0::rat))
      \<le> (if count_sub (T @ E) [nl, nl] + count_sub (T @ E) [nl, CHR '' '', nl] \<ge> 3
           then min (3 / 10)
             (of_nat (count_sub (T @ E) [nl, nl] + count_sub (T @ E) [nl, CHR '' '', nl]) / 10
               * (3 / 10))
           else 0)"
    by (rule paragraph_part_mono)
  have sb: "(if 10 \<le> avg_sentence_length T \<and> avg_sentence_length T \<le> 100 then 2 / 10 else (0::rat))
      \<le> (if 10 \<le> avg_sentence_length (T @ E) \<and> avg_sentence_length (T @ E) \<le> 100
          then 2 / 10 else 0)"
    using s by auto
  have gb: "(if langdetect_detect ext T = Some ''en'' then 1 / 10 else (0::rat))
      \<le> (if langdetect_detect ext (T @ E) = Some ''en'' then 1 / 10 else 0)"
    using g by auto
  show ?thesis
    unfolding calculate_content_quality_sum [OF False] calculate_content_quality_sum [OF ne]
    by (intro min.mono order_refl add_mono l p sb gb)
qed

text \<open>
  C8 (as amended). For every input the score is at least 0 and never exceeds 1.0. For
  every text \<open>T\<close> and every extension of \<open>T\<close> by appended characters (of any length), the
  score of the extended text is greater than or equal to the score of \<open>T\<close> provided the
  extension keeps the two bonuses that do not depend on the amount of text alone: if the
  average sentence length of \<open>T\<close> lies in [10, 100] then so does that of the extended
  text, and if \<open>T\<close> is detected as English then so is the extended text. (The length and
  paragraph components never decrease when characters are appended.)
\<close>

theorem calculate_content_quality_monotone:
  "0 \<le> calculate_content_quality ext doc ttl
   \<and> calculate_content_quality ext doc ttl \<le> 1
   \<and> ((10 \<le> avg_sentence_length T \<and> avg_sentence_length T \<le> 100
          \<longrightarrow> 10 \<le> avg_sentence_length (T @ E) \<and> avg_sentence_length (T @ E) \<le> 100)
        \<and> (langdetect_detect ext T = Some ''en'' \<longrightarrow> langdetect_detect ext (T @ E) = Some ''en'')
      \<longrightarrow> calculate_content_quality ext T ttl \<le> calculate_content_quality ext (T @ E) ttl)"
  using calculate_content_quality_range [of ext doc ttl]
    calculate_content_quality_mono [of T E ext ttl]
  by blast


theorem calculate_content_quality_monotone_witness:
  "10 \<le> avg_sentence_length (one_sentence @ ''.'')
   \<and> avg_sentence_length (one_sentence @ ''.'') \<le> 100
   \<and> langdetect_detect english (one_sentence @ ''.'') = Some ''en''
   \<and> 0 \<le> calculate_content_quality english one_sentence None
   \<and> calculate_content_quality english one_sentence None \<le> 1
   \<and> calculate_content_quality english one_sentence None
       \<le> calculate_content_quality english (one_sentence @ ''.'') None"
proof -
  have h1: "10 \<le> avg_sentence_length (one_sentence @ ''.'')
      \<and> avg_sentence_length (one_sentence @ ''.'') \<le> 100"
    by code_simp
  have h2: "langdetect_detect english (one_sentence @ ''.'') = Some ''en''"
    by (simp add: english_def)
  show ?thesis
    using calculate_content_quality_monotone [of english one_sentence None one_sentence "''.''"]
      h1 h2
    by blast
qed

text \<open>
  Without that proviso the score can drop: 99 letters and a full stop have an average
  sentence length of 100 and earn the 0.2 bonus; one more letter makes it 101 and the
  bonus is lost, whatever the language detector answers.
\<close>

theorem calculate_content_quality_monotone_counterexample:
  "length (one_sentence @ ''a'') \<le> 10000
   \<and> calculate_content_quality english (one_sentence @ ''a'') None
       < calculate_content_quality english one_sentence None
   \<and> calculate_content_quality undetected (one_sentence @ ''a'') None
       < calculate_content_quality undetected one_sentence None
   \<and> calculate_content_quality undetected one_sentence None = 2 / 10
   \<and> calculate_content_quality undetected (one_sentence @ ''a'') None = 0"
  by code_simp

section \<open>Properties of the extraction chain\<close>

lemma validate_extraction_result_valid:
  assumes "validate_extraction_result ext c u m = (True, r, q)"
  shows "c \<noteq> [] \<and> is_article_content c \<and> q = calculate_content_quality ext c None \<and> 3 / 10 \<le> q"
  using assms
  by (auto simp: validate_extraction_result_def Let_def split: if_splits)

lemma attempt_Some:
  assumes "attempt ext u d m s st = (Inr (Some a), st')"
  shows "extraction_method a = m \<and> domain a = d \<and> ArticleContent.url a = u
    \<and> (\<exists>raw. raw \<noteq> [] \<and> is_article_content raw \<and> content a = clean_content raw
          \<and> quality_score a = calculate_content_quality ext raw None
          \<and> 3 / 10 \<le> quality_score a)"
proof -
  obtain out st1 where s: "s u st = (out, st1)" by (cases "s u st")
  show ?thesis
  proof (cases out)
    case (Inl e)
    then show ?thesis using assms s by (simp add: attempt_def)
  next
    case (Inr oc)
    show ?thesis
    proof (cases oc)
      case None
      then show ?thesis using assms s Inr by (simp add: attempt_def)
    next
      case (Some c)
      obtain v r q where v: "validate_extraction_result ext c u m = (v, r, q)"
        by (cases "validate_extraction_result ext c u m") auto
      have ne: "c \<noteq> []" and valid: "v"
        using assms s Inr Some v by (auto simp: attempt_def split: if_splits)
      then have a: "a = \<lparr>ArticleContent.url = u, ArticleContent.title = extract_title st1 u m,
            content = clean_content c, author = extract_author st1 u m,
            ArticleContent.publish_date = extract_date st1 u m, domain = d,
            language = detect_language ext c, quality_score = q, extraction_method = m\<rparr>"
        using assms s Inr Some v by (auto simp: attempt_def)
      have "validate_extraction_result ext c u m = (True, r, q)" using v valid by simp
      from validate_extraction_result_valid [OF this] show ?thesis
        using a by auto
    qed
  qed
qed

lemma try_extractors_Inr:
  "try_extractors ext u d xs le st called = (Inr a, st', called') \<Longrightarrow>
     extraction_method a \<in> fst ` set xs
     \<and> (\<exists>raw. raw \<noteq> [] \<and> is_article_content raw \<and> content a = clean_content raw
          \<and> quality_score a = calculate_content_quality ext raw None
          \<and> 3 / 10 \<le> quality_score a)"
proof (induction xs arbitrary: le st called)
  case Nil
  then show ?case by simp
next
  case (Cons x xs)
  obtain m s where x: "x = (m, s)" by (cases x)
  obtain out st1 where at: "attempt ext u d m s st = (out, st1)"
    by (cases "attempt ext u d m s st")
  show ?case
  proof (cases out)
    case (Inl e)
    then have "try_extractors ext u d xs (Some e) st1 (called @ [m]) = (Inr a, st', called')"
      using Cons.prems x at by simp
    from Cons.IH [OF this] show ?thesis by auto
  next
    case (Inr oa)
    show ?thesis
    proof (cases oa)
      case None
      then have "try_extractors ext u d xs le st1 (called @ [m]) = (Inr a, st', called')"
        using Cons.prems x at Inr by simp
      from Cons.IH [OF this] show ?thesis by auto
    next
      case (Some b)
      then have "b = a" using Cons.prems x at Inr by simp
      then have "attempt ext u d m s st = (Inr (Some a), st1)" using at Inr Some by simp
      from attempt_Some [OF this] show ?thesis using x by auto
    qed
  qed
qed

text \<open>
  C10. Every \<open>ArticleContent\<close> returned by the extraction chain has a \<open>quality_score\<close> in
  the interval [0.3, 1.0]: it is the score that \<open>validate_extraction_result\<close> computed
  for the raw text of the winning strategy and accepted, and that function accepts only
  scores of at least 0.3.
\<close>

theorem extraction_quality_score:
  assumes "extract_content_from ext xs u st = (Inr a, st', called')"
  shows "3 / 10 \<le> quality_score a \<and> quality_score a \<le> 1
    \<and> (\<exists>raw. raw \<noteq> [] \<and> fst (validate_extraction_result ext raw u (extraction_method a))
          \<and> quality_score a = snd (snd (validate_extraction_result ext raw u (extraction_method a)))
          \<and> quality_score a = calculate_content_quality ext raw None)"
proof -
  have "try_extractors ext u (extract_domain ext u) xs None st [] = (Inr a, st', called')"
    using assms by (simp add: extract_content_from_def split: if_splits)
  from try_extractors_Inr [OF this]
  obtain raw where raw: "raw \<noteq> []" "is_article_content raw"
      "quality_score a = calculate_content_quality ext raw None" "3 / 10 \<le> quality_score a"
    by blast
  have le1: "quality_score a \<le> 1"
    using raw(3) calculate_content_quality_range [of ext raw None] by simp
  have "validate_extraction_result ext raw u (extraction_method a)
      = (True, Valid_article_content_extracted_via (extraction_method a), quality_score a)"
    using raw by (simp add: validate_extraction_result_def Let_def)
  then show ?thesis using raw le1 by auto
qed


lemma attempt_fails:
  assumes "strategy_fails ext u m s st"
  shows "\<exists>r. attempt ext u d m s st = (r, snd (s u st)) \<and> (r = Inr None \<or> (\<exists>e. r = Inl e))"
proof -
  obtain out st1 where s: "s u st = (out, st1)" by (cases "s u st")
  show ?thesis
  proof (cases out)
    case (Inl e)
    then show ?thesis using s by (simp add: attempt_def)
  next
    case (Inr oc)
    show ?thesis
    proof (cases oc)
      case None
      then show ?thesis using s Inr by (simp add: attempt_def)
    next
      case (Some c)
      then have "c = [] \<or> \<not> fst (validate_extraction_result ext c u m)"
        using assms s Inr by (simp add: strategy_fails_def)
      then show ?thesis
        using s Inr Some by (auto simp: attempt_def split: prod.splits)
    qed
  qed
qed

lemma attempt_succeeds:
  assumes "strategy_succeeds ext u m s st"
  shows "\<exists>a. attempt ext u d m s st = (Inr (Some a), snd (s u st)) \<and> extraction_method a = m"
proof -
  obtain out st1 where s: "s u st = (out, st1)" by (cases "s u st")
  from assms s obtain c where c: "out = Inr (Some c)" "c \<noteq> []"
      "fst (validate_extraction_result ext c u m)"
    by (auto simp: strategy_succeeds_def split: sum.splits option.splits)
  then show ?thesis
    using s by (auto simp: attempt_def split: prod.splits)
qed

lemma try_extractors_failures:
  "state_after_failures ext u pre st = Some st1 \<Longrightarrow>
   \<exists>le'. \<forall>rest. try_extractors ext u d (pre @ rest) le st called
              = try_extractors ext u d rest le' st1 (called @ map fst pre)"
proof (induction pre arbitrary: le st called)
  case Nil
  then show ?case by auto
next
  case (Cons x pre)
  obtain m s where x: "x = (m, s)" by (cases x)
  have f: "strategy_fails ext u m s st"
    and rest: "state_after_failures ext u pre (snd (s u st)) = Some st1"
    using Cons.prems x by (auto split: if_splits)
  from attempt_fails [OF f, of d]
  obtain r where r: "attempt ext u d m s st = (r, snd (s u st))"
      "r = Inr None \<or> (\<exists>e. r = Inl e)"
    by blast
  from r(2) show ?case
  proof
    assume "r = Inr None"
    then have step: "\<And>rest. try_extractors ext u d ((x # pre) @ rest) le st called
        = try_extractors ext u d (pre @ rest) le (snd (s u st)) (called @ [m])"
      using r(1) x by simp
    from Cons.IH [OF rest, of le "called @ [m]"] show ?thesis
      using step x by auto
  next
    assume "\<exists>e. r = Inl e"
    then obtain e where "r = Inl e" by blast
    then have step: "\<And>rest. try_extractors ext u d ((x # pre) @ rest) le st called
        = try_extractors ext u d (pre @ rest) (Some e) (snd (s u st)) (called @ [m])"
      using r(1) x by simp
    from Cons.IH [OF rest, of "Some e" "called @ [m]"] show ?thesis
      using step x by auto
  qed
qed

lemma extract_content_from_first_success:
  assumes "validate_url ext u"
    and "state_after_failures ext u pre st = Some st1"
    and "strategy_succeeds ext u m s st1"
  shows "\<exists>a st'. extract_content_from ext (pre @ (m, s) # post) u st
                  = (Inr a, st', map fst pre @ [m])
           \<and> extraction_method a = m
           \<and> extract_content_from ext (pre @ (m, s) # post) u st
               = extract_content_from ext (pre @ [(m, s)]) u st"
proof -
  let ?d = "extract_domain ext u"
  from try_extractors_failures [OF assms(2), of ?d None "[]"]
  obtain le' where le': "\<And>rest. try_extractors ext u ?d (pre @ rest) None st []
      = try_extractors ext u ?d rest le' st1 (map fst pre)"
    by auto
  from attempt_succeeds [OF assms(3), of ?d]
  obtain a where a: "attempt ext u ?d m s st1 = (Inr (Some a), snd (s u st1))"
      "extraction_method a = m"
    by blast
  have run: "\<And>rest. try_extractors ext u ?d (pre @ (m, s) # rest) None st []
      = (Inr a, snd (s u st1), map fst pre @ [m])"
    using le' a(1) by simp
  show ?thesis
    using run [of post] run [of "[]"] a(2) assms(1) by (simp add: extract_content_from_def)
qed


text \<open>
  C2. For every ordered sequence of extraction strategies and every valid URL: when every
  strategy before some strategy \<open>m\<close> fails as it is invoked (it raises, returns nothing or
  an empty text, or its text fails the validation), each in the state left by the ones
  before, and \<open>m\<close> then returns a text that passes \<open>validate_extraction_result\<close>, then
  \<open>extract_content\<close> returns an \<open>ArticleContent\<close> whose \<open>extraction_method\<close> is the name of
  \<open>m\<close>; the strategies invoked are exactly those up to and including \<open>m\<close>, in order, and
  the result is the same whatever strategies come after \<open>m\<close>: none of them is invoked.
\<close>

theorem first_success_short_circuit:
  assumes "validate_url ext u"
    and "state_after_failures ext u pre st = Some st1"
    and "strategy_succeeds ext u m s st1"
  shows "\<exists>a st'. extract_content_from ext (pre @ (m, s) # post) u st
                  = (Inr a, st', map fst pre @ [m])
           \<and> extraction_method a = m
           \<and> extract_content_from ext (pre @ (m, s) # post) u st
               = extract_content_from ext (pre @ [(m, s)]) u st"
  using assms by (rule extract_content_from_first_success)

lemma article_text_succeeds:
  "strategy_succeeds english ''https://example.com/a'' ''readability''
     (returns_text article_text) initial_state"
  by code_simp

lemma failing_strategies_fail:
  "state_after_failures english ''https://example.com/a'' failing_strategies initial_state
     = Some initial_state"
  by code_simp

lemma english_valid_url: "validate_url english ''https://example.com/a''"
  by (simp add: validate_url_def english_def)

theorem first_success_short_circuit_witness:
  "validate_url english ''https://example.com/a''
   \<and> state_after_failures english ''https://example.com/a'' failing_strategies initial_state
       = Some initial_state
   \<and> strategy_succeeds english ''https://example.com/a'' ''readability''
        (returns_text article_text) initial_state
   \<and> (\<exists>a st'. extract_content_from english
          (failing_strategies @ (''readability'', returns_text article_text)
             # [(''beautifulsoup'', returns_text article_text), (''selenium'', raises)])
          ''https://example.com/a'' initial_state
        = (Inr a, st', [''trafilatura'', ''newspaper3k'', ''readability''])
        \<and> extraction_method a = ''readability'')"
proof -
  have names: "map fst failing_strategies @ [''readability'']
      = [''trafilatura'', ''newspaper3k'', ''readability'']"
    by (simp add: failing_strategies_def)
  from first_success_short_circuit [OF english_valid_url failing_strategies_fail
      article_text_succeeds,
      of "[(''beautifulsoup'', returns_text article_text), (''selenium'', raises)]"]
  show ?thesis
    using english_valid_url failing_strategies_fail article_text_succeeds
    unfolding names by blast
qed

theorem extraction_quality_score_witness:
  "\<exists>a st' called.
     extract_content_from english
        (failing_strategies @ [(''readability'', returns_text article_text)])
        ''https://example.com/a'' initial_state = (Inr a, st', called)
     \<and> 3 / 10 \<le> quality_score a \<and> quality_score a \<le> 1"
proof -
  from extract_content_from_first_success [OF english_valid_url failing_strategies_fail
      article_text_succeeds, of "[]"]
  obtain a st' where run: "extract_content_from english
        (failing_strategies @ [(''readability'', returns_text article_text)])
        ''https://example.com/a'' initial_state
      = (Inr a, st', map fst failing_strategies @ [''readability''])"
    by blast
  from extraction_quality_score [OF run] have "3 / 10 \<le> quality_score a \<and> quality_score a \<le> 1"
    by blast
  then show ?thesis using run by blast
qed

end
